theory Spec2Isabelle
  imports Main "HOL-Library.Word" "HOL-Library.AList"
begin

section \<open>Strings and values of the JavaScript runtime\<close>

text \<open>
  A JavaScript string is a sequence of UTF-16 code units: \<open>length\<close>, \<open>substring\<close> and a
  regular expression without the \<open>u\<close> flag all work on code units. A string of the program
  is therefore a list of 16-bit words; \<open>str\<close> turns a literal of the source into one.
\<close>

type_synonym jsstring = "16 word list"

definition str :: "string \<Rightarrow> jsstring" where
  "str s = map of_char s"

text \<open>
  The values the pipeline handles (\<open>unknown\<close> in the source). Numbers are never inspected
  by the code, so their representation is the type parameter \<open>'n\<close>. An object is the list
  of its own enumerable properties, in the order in which \<open>Object.entries\<close> reports them; an
  array is the list of its elements. Values are finite trees, hence acyclic.
\<close>

datatype 'n jsvalue =
    Undefined
  | Null
  | Bool bool
  | Num 'n
  | Str jsstring
  | Arr "'n jsvalue list"
  | Obj "(jsstring \<times> 'n jsvalue) list"

text \<open>
  \<open>Object.entries(x)\<close> for a value with \<open>typeof x === 'object' && x !== null\<close>, which in
  JavaScript holds of arrays as well as of plain objects; \<open>None\<close> for every other value. The
  own enumerable properties of an array are its indices, written in decimal.
\<close>

fun decimal :: "nat \<Rightarrow> jsstring" where
  "decimal n =
     (if n < 10 then [of_nat (48 + n)]
      else decimal (n div 10) @ [of_nat (48 + n mod 10)])"

fun entries :: "'n jsvalue \<Rightarrow> (jsstring \<times> 'n jsvalue) list option" where
  "entries (Obj ps) = Some ps"
| "entries (Arr xs) = Some (zip (map decimal [0..<length xs]) xs)"
| "entries _ = None"

text \<open>
  The assignment \<open>obj[key] = v\<close> on an object created by the literal \<open>{}\<close>: an existing
  property keeps its place and takes the new value, a new one is added last (the loop of
  the sanitizer assigns the keys of one object in the order of its listing, which is the
  order JavaScript gives them again). The key \<open>__proto__\<close> is the exception: the
  assignment runs the setter inherited from \<open>Object.prototype\<close> and creates no own
  property.
\<close>

definition setProperty ::
  "(jsstring \<times> 'v) list \<Rightarrow> jsstring \<Rightarrow> 'v \<Rightarrow> (jsstring \<times> 'v) list" where
  "setProperty obj key v =
     (if key = str ''__proto__'' then obj else AList.update key v obj)"

text \<open>The object literal \<open>{...a, ...b}\<close>: the properties of \<open>a\<close>, overwritten or extended by those of \<open>b\<close>.\<close>

definition spread :: "('k \<times> 'v) list \<Rightarrow> ('k \<times> 'v) list \<Rightarrow> ('k \<times> 'v) list" where
  "spread a b = fold (\<lambda>(k, v) acc. AList.update k v acc) b a"

text \<open>\<open>s.includes(sub)\<close>: \<open>sub\<close> occurs in \<open>s\<close> as a contiguous run of code units.\<close>

fun startsWith :: "'a list \<Rightarrow> 'a list \<Rightarrow> bool" where
  "startsWith s [] = True"
| "startsWith [] (c # cs) = False"
| "startsWith (d # ds) (c # cs) = (d = c \<and> startsWith ds cs)"

fun stringIncludes :: "'a list \<Rightarrow> 'a list \<Rightarrow> bool" where
  "stringIncludes [] sub = startsWith [] sub"
| "stringIncludes (d # ds) sub = (startsWith (d # ds) sub \<or> stringIncludes ds sub)"

text \<open>
  What the code takes from its environment: \<open>JSON.parse\<close> (\<open>Inl m\<close> when it throws a
  \<open>SyntaxError\<close> with message \<open>m\<close>), \<open>JSON.stringify\<close>, \<open>String.prototype.toLowerCase\<close>
  and the clock read by \<open>new Date().toISOString()\<close>. They are parameters of the model.
\<close>

record 'n runtime =
  JSON_parse :: "jsstring \<Rightarrow> jsstring + 'n jsvalue"
  JSON_stringify :: "'n jsvalue \<Rightarrow> jsstring"
  toLowerCase :: "jsstring \<Rightarrow> jsstring"
  now :: jsstring

section \<open>types.ts\<close>

datatype CrudOperation = CREATE | READ | UPDATE | DELETE

text \<open>In the source a \<open>CrudOperation\<close> is the string of its name.\<close>

fun operationName :: "CrudOperation \<Rightarrow> jsstring" where
  "operationName CREATE = str ''CREATE''"
| "operationName READ = str ''READ''"
| "operationName UPDATE = str ''UPDATE''"
| "operationName DELETE = str ''DELETE''"

text \<open>
  The error classes. \<open>ValidationError\<close> keeps its two constructor arguments as the
  properties \<open>field\<close> and \<open>value\<close> (here \<open>value_of\<close>) and passes \<open>`Validation failed for field ${field}`\<close> to
  the constructor of \<open>Error\<close>; \<open>AuthorizationError\<close>, \<open>Error\<close> and \<open>TypeError\<close> carry the
  message they are given; \<open>NotFoundError\<close> builds its message from a resource and an id.
\<close>

datatype 'n error =
    ValidationError (field: jsstring) (value_of: "'n jsvalue")
  | AuthorizationError jsstring
  | NotFoundError jsstring jsstring
  | Error jsstring
  | TypeError jsstring

fun name :: "'n error \<Rightarrow> jsstring" where
  "name (ValidationError f v) = str ''ValidationError''"
| "name (AuthorizationError m) = str ''AuthorizationError''"
| "name (NotFoundError r i) = str ''NotFoundError''"
| "name (Error m) = str ''Error''"
| "name (TypeError m) = str ''TypeError''"

fun message :: "'n error \<Rightarrow> jsstring" where
  "message (ValidationError f v) = str ''Validation failed for field '' @ f"
| "message (AuthorizationError m) = m"
| "message (NotFoundError r i) = r @ str '' with id '' @ i @ str '' not found''"
| "message (Error m) = m"
| "message (TypeError m) = m"

text \<open>\<open>Result<T>\<close>: \<open>Inr v\<close> is \<open>{ok: true, value: v}\<close>, \<open>Inl e\<close> is \<open>{ok: false, error: e}\<close>.\<close>

type_synonym ('n, 'a) Result = "'n error + 'a"

definition isValidHttpMethod :: "jsstring \<Rightarrow> bool" where
  "isValidHttpMethod m \<longleftrightarrow>
     m \<in> set [str ''GET'', str ''POST'', str ''PUT'', str ''PATCH'', str ''DELETE'']"

definition STANDARD_HEADERS :: "(jsstring \<times> jsstring) list" where
  "STANDARD_HEADERS =
    [(str ''Content-Type'', str ''application/json''),
     (str ''X-Content-Type-Options'', str ''nosniff''),
     (str ''X-Frame-Options'', str ''DENY''),
     (str ''X-XSS-Protection'', str ''1; mode=block''),
     (str ''Strict-Transport-Security'', str ''max-age=31536000; includeSubDomains''),
     (str ''Cache-Control'', str ''no-store, no-cache, must-revalidate''),
     (str ''Pragma'', str ''no-cache'')]"

text \<open>
  The envelope returned to API Gateway, and the part of the inbound event that decides
  it: the method (\<open>requestContext.http.method\<close>, the field \<open>http_method\<close> here), the path
  parameters (a value may be \<open>undefined\<close>) and the raw body. The other fields of the event
  and the Lambda context are only written to the log. A test of the handler deletes
  \<open>requestContext\<close> from the event, so it is optional here.
\<close>

record response =
  statusCode :: int
  headers :: "(jsstring \<times> jsstring) list"
  body :: jsstring

record http =
  http_method :: jsstring

record requestContext =
  http :: http

record event =
  requestContext :: "requestContext option"
  pathParameters :: "(jsstring \<times> jsstring option) list option"
  body :: "jsstring option"

record RequestContext =
  event :: event
  operation :: CrudOperation
  resourceId :: "jsstring option"

section \<open>utils.ts\<close>

text \<open>
  Calls of the logger, the tracer and \<open>console.log\<close> write to sinks outside the program
  and do not influence any returned value; the model leaves them out.
\<close>

subsection \<open>Responses\<close>

definition createApiResponse ::
  "'n runtime \<Rightarrow> int \<Rightarrow> 'n jsvalue \<Rightarrow> (jsstring \<times> jsstring) list \<Rightarrow> response" where
  "createApiResponse rt status payload extra =
     \<lparr>statusCode = status,
      headers = spread STANDARD_HEADERS extra,
      body = JSON_stringify rt payload\<rparr>"

definition successResponse :: "'n runtime \<Rightarrow> 'n jsvalue \<Rightarrow> int \<Rightarrow> response" where
  "successResponse rt data status =
     createApiResponse rt status
       (Obj [(str ''success'', Bool True), (str ''data'', data)]) []"

text \<open>The argument of \<open>errorResponse\<close> is an \<open>Error\<close> object (\<open>Inl\<close>) or a string (\<open>Inr\<close>).\<close>

definition errorResponse :: "'n runtime \<Rightarrow> 'n error + jsstring \<Rightarrow> int \<Rightarrow> response" where
  "errorResponse rt err status =
     (let errorMessage = (case err of Inl e \<Rightarrow> message e | Inr s \<Rightarrow> s);
          errorName = (case err of Inl e \<Rightarrow> name e | Inr s \<Rightarrow> str ''Error'')
      in createApiResponse rt status
           (Obj [(str ''success'', Bool False),
                 (str ''error'', Obj [(str ''name'', Str errorName),
                                      (str ''message'', Str errorMessage)])]) [])"

subsection \<open>Mapping a method to a CRUD operation\<close>

text \<open>
  At run time the method is a string; the \<open>default\<close> branch of the \<open>switch\<close> is kept.
\<close>

definition mapHttpMethodToCrudOperation :: "jsstring \<Rightarrow> bool \<Rightarrow> ('n, CrudOperation) Result" where
  "mapHttpMethodToCrudOperation m hasResourceId =
    (if m = str ''GET'' then Inr READ
     else if m = str ''POST'' then Inr CREATE
     else if m = str ''PUT'' \<or> m = str ''PATCH'' then
       (if hasResourceId then Inr UPDATE
        else Inl (ValidationError (str ''resourceId'')
                    (Str (str ''Resource ID required for update operations''))))
     else if m = str ''DELETE'' then
       (if hasResourceId then Inr DELETE
        else Inl (ValidationError (str ''resourceId'')
                    (Str (str ''Resource ID required for delete operations''))))
     else Inl (Error (str ''Unsupported HTTP method: '' @ m)))"

subsection \<open>Extracting the resource id\<close>

definition idParameterNames :: "jsstring list" where
  "idParameterNames = [str ''id'', str ''resourceId'', str ''itemId'', str ''entityId'']"

text \<open>
  The first loop of \<open>extractResourceId\<close>, over the candidate names: \<open>map_of params n\<close> is
  \<open>pathParameters[n]\<close>, and \<open>Some (Some v)\<close> is a property whose value is the string \<open>v\<close>.
\<close>

fun candidateLoop :: "(jsstring \<times> jsstring option) list \<Rightarrow> jsstring list \<Rightarrow> jsstring option" where
  "candidateLoop params [] = None"
| "candidateLoop params (paramName # rest) =
     (case map_of params paramName of
        Some (Some v) \<Rightarrow> if length v > 0 then Some v else candidateLoop params rest
      | _ \<Rightarrow> candidateLoop params rest)"

text \<open>The second loop, over \<open>Object.entries(pathParameters)\<close>.\<close>

fun entryLoop :: "'n runtime \<Rightarrow> (jsstring \<times> jsstring option) list \<Rightarrow> jsstring option" where
  "entryLoop rt [] = None"
| "entryLoop rt ((key, v) # rest) =
     (if stringIncludes (toLowerCase rt key) (str ''id'') \<and> v \<noteq> None \<and> length (the v) > 0
      then v else entryLoop rt rest)"

definition extractResourceId :: "'n runtime \<Rightarrow> event \<Rightarrow> jsstring option" where
  "extractResourceId rt ev =
     (case pathParameters ev of
        None \<Rightarrow> None
      | Some params \<Rightarrow>
          (case candidateLoop params idParameterNames of
             Some v \<Rightarrow> Some v
           | None \<Rightarrow> entryLoop rt params))"

subsection \<open>Parsing the body\<close>

text \<open>The truth value of \<open>body\<close> in \<open>if (body)\<close>: \<open>undefined\<close> and the empty string are falsy.\<close>

definition truthy :: "jsstring option \<Rightarrow> bool" where
  "truthy b = (case b of None \<Rightarrow> False | Some s \<Rightarrow> s \<noteq> [])"

definition parseRequestBody :: "'n runtime \<Rightarrow> jsstring option \<Rightarrow> ('n, 'n jsvalue) Result" where
  "parseRequestBody rt b =
     (if \<not> truthy b then Inr (Obj [])
      else (case JSON_parse rt (the b) of
              Inr parsed \<Rightarrow> Inr parsed
            | Inl syntaxError \<Rightarrow>
                Inl (ValidationError (str ''body'') (Str (str ''Invalid JSON: '' @ syntaxError)))))"

subsection \<open>The request context\<close>

text \<open>
  The outer \<open>Inl\<close> of the result is a thrown exception: reading \<open>.http\<close> of a missing
  \<open>requestContext\<close> throws a \<open>TypeError\<close> (the message is that of V8). The inner sum is
  the \<open>Result\<close> that the function returns.
\<close>

definition createRequestContext ::
  "'n runtime \<Rightarrow> event \<Rightarrow> 'n error + ('n, RequestContext) Result" where
  "createRequestContext rt ev =
     (case requestContext ev of
        None \<Rightarrow> Inl (TypeError (str ''Cannot read properties of undefined (reading 'http')''))
      | Some rc \<Rightarrow>
          Inr (let m = http_method (http rc) in
               if \<not> isValidHttpMethod m then
                 Inl (ValidationError (str ''method'') (Str (str ''Invalid HTTP method: '' @ m)))
               else
                 (let rid = extractResourceId rt ev in
                  case mapHttpMethodToCrudOperation m (rid \<noteq> None) of
                    Inl e \<Rightarrow> Inl e
                  | Inr opn \<Rightarrow> Inr \<lparr>event = ev, operation = opn, resourceId = rid\<rparr>)))"

subsection \<open>Sanitizing\<close>

text \<open>The character class \<open>[\x00-\x1F\x7F-\x9F]\<close> of the regular expression.\<close>

definition isControl :: "16 word \<Rightarrow> bool" where
  "isControl c \<longleftrightarrow> (0x00 \<le> c \<and> c \<le> 0x1F) \<or> (0x7F \<le> c \<and> c \<le> 0x9F)"

definition MAX_INPUT_LENGTH :: nat where
  "MAX_INPUT_LENGTH = 10000"

definition sanitizeInput :: "jsstring \<Rightarrow> jsstring" where
  "sanitizeInput input =
     (let sanitized = filter (\<lambda>c. \<not> isControl c) input
      in if length sanitized > MAX_INPUT_LENGTH then take MAX_INPUT_LENGTH sanitized
         else sanitized)"

text \<open>The number of nodes of a value; the recursion of the sanitizer descends along it.\<close>

fun jsize :: "'n jsvalue \<Rightarrow> nat" where
  "jsize (Arr xs) = Suc (sum_list (map jsize xs))"
| "jsize (Obj ps) = Suc (sum_list (map (\<lambda>(k, v). jsize v) ps))"
| "jsize _ = 1"

text \<open>
  \<open>validateAndSanitizeObject\<close>, and its loop over the entries with the object \<open>sanitized\<close>
  built so far. A key reported by \<open>Object.entries\<close> is a string, so of the key test only
  the two length checks remain. The branch \<open>typeof value === 'object' && value !== null\<close>
  is the one for \<open>Arr\<close> and for \<open>Obj\<close>.
\<close>

function validateAndSanitizeObject :: "'n jsvalue \<Rightarrow> ('n, (jsstring \<times> 'n jsvalue) list) Result"
  and sanitizeEntries ::
    "(jsstring \<times> 'n jsvalue) list \<Rightarrow> (jsstring \<times> 'n jsvalue) list
       \<Rightarrow> ('n, (jsstring \<times> 'n jsvalue) list) Result"
where
  "validateAndSanitizeObject obj =
     (case entries obj of
        None \<Rightarrow> Inl (ValidationError (str ''object'') (Str (str ''Expected an object'')))
      | Some es \<Rightarrow> sanitizeEntries es [])"
| "sanitizeEntries [] sanitized = Inr sanitized"
| "sanitizeEntries ((key, v) # rest) sanitized =
     (if length key = 0 \<or> length key > 100 then
        Inl (ValidationError (str ''key'') (Str (str ''Invalid key: '' @ key)))
      else
        (case v of
           Str s \<Rightarrow> sanitizeEntries rest (setProperty sanitized key (Str (sanitizeInput s)))
         | Arr xs \<Rightarrow>
             (case validateAndSanitizeObject v of
                Inl e \<Rightarrow> Inl e
              | Inr nested \<Rightarrow> sanitizeEntries rest (setProperty sanitized key (Obj nested)))
         | Obj ps \<Rightarrow>
             (case validateAndSanitizeObject v of
                Inl e \<Rightarrow> Inl e
              | Inr nested \<Rightarrow> sanitizeEntries rest (setProperty sanitized key (Obj nested)))
         | _ \<Rightarrow> sanitizeEntries rest (setProperty sanitized key v)))"
  by pat_completeness auto
termination
proof (relation "measure (\<lambda>x. case x of
          Inl obj \<Rightarrow> 2 * jsize obj
        | Inr (es, acc) \<Rightarrow> Suc (2 * sum_list (map (\<lambda>(k, v). jsize v) es)))")
  show "wf (measure (\<lambda>x. case x of
          Inl (obj :: 'n jsvalue) \<Rightarrow> 2 * jsize obj
        | Inr (es, acc :: (jsstring \<times> 'n jsvalue) list) \<Rightarrow>
            Suc (2 * sum_list (map (\<lambda>(k, v). jsize v) es))))"
    by simp
next
  fix obj :: "'n jsvalue" and es
  assume "entries obj = Some es"
  have z: "sum_list (map (\<lambda>(k, v). jsize v) (zip ks xs)) = sum_list (map jsize xs)"
    if "length ks = length xs" for ks :: "jsstring list" and xs :: "'n jsvalue list"
    using that by (induction ks xs rule: list_induct2) simp_all
  from \<open>entries obj = Some es\<close>
  have "Suc (sum_list (map (\<lambda>(k, v). jsize v) es)) = jsize obj"
    by (cases obj) (auto simp: z)
  then show "(Inr (es, []), Inl obj) \<in> measure (\<lambda>x. case x of
          Inl obj \<Rightarrow> 2 * jsize obj
        | Inr (es, acc) \<Rightarrow> Suc (2 * sum_list (map (\<lambda>(k, v). jsize v) es)))"
    by simp
qed simp_all

section \<open>index.ts\<close>

text \<open>
  The \<open>catch\<close> block of the handler: the status follows the class of the thrown error.
\<close>

definition handlerCatch :: "'n runtime \<Rightarrow> 'n error \<Rightarrow> response" where
  "handlerCatch rt thrown =
     (case thrown of
        ValidationError f v \<Rightarrow> errorResponse rt (Inl thrown) 400
      | AuthorizationError m \<Rightarrow> errorResponse rt (Inl thrown) 403
      | NotFoundError r i \<Rightarrow> errorResponse rt (Inl thrown) 404
      | _ \<Rightarrow> errorResponse rt (Inl thrown) 500)"

text \<open>
  The \<open>try\<close> block: \<open>Inl\<close> is an exception that reaches the \<open>catch\<close> block, \<open>Inr\<close> a returned
  envelope. \<open>requestBody\<close> is \<open>Inl\<close> of the envelope where the source returns early. The
  four functions \<open>handleCreate\<close>, \<open>handleRead\<close>, \<open>handleUpdate\<close> and \<open>handleDelete\<close> of the
  \<open>switch\<close> only print the request.
\<close>

definition handlerTry :: "'n runtime \<Rightarrow> event \<Rightarrow> 'n error + response" where
  "handlerTry rt ev =
     (case createRequestContext rt ev of
        Inl thrown \<Rightarrow> Inl thrown
      | Inr (Inl e) \<Rightarrow> Inr (errorResponse rt (Inl e) 400)
      | Inr (Inr ctx) \<Rightarrow>
          (let requestBody =
                 (if truthy (body ev) then
                    (case parseRequestBody rt (body ev) of
                       Inl e \<Rightarrow> Inl (errorResponse rt (Inl e) 400)
                     | Inr parsed \<Rightarrow>
                         (case validateAndSanitizeObject parsed of
                            Inl e \<Rightarrow> Inl (errorResponse rt (Inl e) 400)
                          | Inr sanitized \<Rightarrow> Inr (Some sanitized)))
                  else Inr None)
           in case requestBody of
                Inl early \<Rightarrow> Inr early
              | Inr b \<Rightarrow>
                  Inr (successResponse rt
                         (Obj [(str ''message'',
                                  Str (operationName (operation ctx)
                                         @ str '' operation logged successfully'')),
                               (str ''operation'', Str (operationName (operation ctx))),
                               (str ''resourceId'',
                                  (case resourceId ctx of None \<Rightarrow> Undefined | Some r \<Rightarrow> Str r)),
                               (str ''timestamp'', Str (now rt))])
                         200)))"

definition handler :: "'n runtime \<Rightarrow> event \<Rightarrow> response" where
  "handler rt ev =
     (case handlerTry rt ev of
        Inl thrown \<Rightarrow> handlerCatch rt thrown
      | Inr r \<Rightarrow> r)"

section \<open>Notions used in the proofs\<close>

text \<open>
  A key that the sanitizer accepts and keeps, and a value that the sanitizer leaves as it
  is: every string in it is already sanitized, it holds no array, and every object in it
  has distinct keys that the sanitizer keeps.
\<close>

definition validKey :: "jsstring \<Rightarrow> bool" where
  "validKey k \<longleftrightarrow> 0 < length k \<and> length k \<le> 100 \<and> k \<noteq> str ''__proto__''"

fun settled :: "'n jsvalue \<Rightarrow> bool" where
  "settled (Str s) = (sanitizeInput s = s)"
| "settled (Arr xs) = False"
| "settled (Obj ps) = (distinct (map fst ps) \<and> list_all (\<lambda>(k, v). validKey k \<and> settled v) ps)"
| "settled _ = True"

text \<open>What one round of the loop stores for the value \<open>v\<close>, or the error it returns.\<close>

definition sanitizeValue :: "'n jsvalue \<Rightarrow> ('n, 'n jsvalue) Result" where
  "sanitizeValue v =
     (case v of
        Str s \<Rightarrow> Inr (Str (sanitizeInput s))
      | Arr xs \<Rightarrow> (case validateAndSanitizeObject v of Inl e \<Rightarrow> Inl e | Inr nested \<Rightarrow> Inr (Obj nested))
      | Obj ps \<Rightarrow> (case validateAndSanitizeObject v of Inl e \<Rightarrow> Inl e | Inr nested \<Rightarrow> Inr (Obj nested))
      | _ \<Rightarrow> Inr v)"

text \<open>
  A runtime for evaluating the model on concrete requests: its \<open>JSON.parse\<close> reads the
  text \<open>{}\<close> and rejects every other, its \<open>toLowerCase\<close> maps the letters \<open>A\<close> to \<open>Z\<close>, and
  its \<open>JSON.stringify\<close> and its clock return fixed strings.
\<close>

definition sampleRuntime :: "int runtime" where
  "sampleRuntime =
     \<lparr>JSON_parse = (\<lambda>s. if s = str ''{}'' then Inr (Obj []) else Inl (str ''Unexpected token'')),
      JSON_stringify = (\<lambda>v. str ''{}''),
      toLowerCase = map (\<lambda>c. if 0x41 \<le> c \<and> c \<le> 0x5A then c + 0x20 else c),
      now = str ''2024-01-01T00:00:00.000Z''\<rparr>"

section \<open>Strings\<close>

lemma of_char_lt_256: "(of_char c :: nat) < 256"
  by (cases c) simp

lemma unat_of_char: "unat (of_char c :: 16 word) = of_char c"
proof -
  have "word_of_nat (of_char c) = (of_char c :: 16 word)"
    by (simp add: of_nat_of_char)
  moreover have "(of_char c :: nat) < 2 ^ LENGTH(16)"
    by (rule less_trans [OF of_char_lt_256]) simp
  ultimately show ?thesis
    by (rule of_nat_inverse)
qed

lemma str_eq_iff [simp]: "str s = str t \<longleftrightarrow> s = t"
proof
  assume "str s = str t"
  then have "map (of_char :: char \<Rightarrow> 16 word) s = map of_char t"
    by (simp add: str_def)
  moreover have "inj (of_char :: char \<Rightarrow> 16 word)"
  proof (rule injI)
    fix c d :: char
    assume "(of_char c :: 16 word) = of_char d"
    then have "unat (of_char c :: 16 word) = unat (of_char d :: 16 word)"
      by simp
    then show "c = d"
      by (simp add: unat_of_char)
  qed
  ultimately show "s = t"
    by (simp add: inj_map_eq_map)
qed simp

lemma str_append: "str (s @ t) = str s @ str t"
  by (simp add: str_def)

lemma str_eq_Nil [simp]: "str s = [] \<longleftrightarrow> s = []"
  by (simp add: str_def)

lemma length_str [simp]: "length (str s) = length s"
  by (simp add: str_def)

section \<open>The classifier\<close>

text \<open>
  C1. For each of the five accepted methods and both values of \<open>hasResourceId\<close>,
  \<open>mapHttpMethodToCrudOperation\<close> returns a \<open>Result\<close>: GET gives READ and POST gives CREATE
  whatever \<open>hasResourceId\<close> is; PUT and PATCH give UPDATE with a resource id and a
  \<open>ValidationError\<close> without one; DELETE gives DELETE with a resource id and a
  \<open>ValidationError\<close> without one.
\<close>

theorem mapHttpMethodToCrudOperation_total:
  "mapHttpMethodToCrudOperation (str ''GET'') b = Inr READ \<and>
   mapHttpMethodToCrudOperation (str ''POST'') b = Inr CREATE \<and>
   mapHttpMethodToCrudOperation (str ''PUT'') True = Inr UPDATE \<and>
   mapHttpMethodToCrudOperation (str ''PATCH'') True = Inr UPDATE \<and>
   mapHttpMethodToCrudOperation (str ''DELETE'') True = Inr DELETE \<and>
   mapHttpMethodToCrudOperation (str ''PUT'') False =
     Inl (ValidationError (str ''resourceId'')
            (Str (str ''Resource ID required for update operations''))) \<and>
   mapHttpMethodToCrudOperation (str ''PATCH'') False =
     Inl (ValidationError (str ''resourceId'')
            (Str (str ''Resource ID required for update operations''))) \<and>
   mapHttpMethodToCrudOperation (str ''DELETE'') False =
     Inl (ValidationError (str ''resourceId'')
            (Str (str ''Resource ID required for delete operations'')))"
  by (simp add: mapHttpMethodToCrudOperation_def)

lemma no_resource_id_text:
  "\<not> stringIncludes (str ''Validation failed for field resourceId'') (str ''Resource ID required'')"
  by (simp add: str_def)

lemma no_invalid_method_text:
  "\<not> stringIncludes (str ''Validation failed for field method'') (str ''Invalid HTTP method'')"
  by (simp add: str_def)

text \<open>
  C2. A PUT without a resource id fails with a \<open>ValidationError\<close> whose field is
  \<open>resourceId\<close>. The text \<open>Resource ID required for update operations\<close> is the \<open>value\<close> of that
  error; its message is \<open>Validation failed for field resourceId\<close>, in which the text
  \<open>Resource ID required\<close> does not occur, and that message is the one in the status-400
  envelope of the handler.
\<close>

theorem put_without_resource_id:
  "mapHttpMethodToCrudOperation (str ''PUT'') False =
     Inl (ValidationError (str ''resourceId'')
            (Str (str ''Resource ID required for update operations''))) \<and>
   message (ValidationError (str ''resourceId'')
              (Str (str ''Resource ID required for update operations'')))
     = str ''Validation failed for field resourceId'' \<and>
   \<not> stringIncludes (str ''Validation failed for field resourceId'') (str ''Resource ID required'') \<and>
   handler rt \<lparr>requestContext = Some \<lparr>http = \<lparr>http_method = str ''PUT''\<rparr>\<rparr>,
               pathParameters = None, body = b\<rparr>
     = \<lparr>statusCode = 400, headers = STANDARD_HEADERS,
        body = JSON_stringify rt
          (Obj [(str ''success'', Bool False),
                (str ''error'',
                   Obj [(str ''name'', Str (str ''ValidationError'')),
                        (str ''message'', Str (str ''Validation failed for field resourceId''))])])\<rparr>"
  by (simp add: no_resource_id_text mapHttpMethodToCrudOperation_def handler_def handlerTry_def
      createRequestContext_def isValidHttpMethod_def extractResourceId_def errorResponse_def
      createApiResponse_def spread_def str_append [symmetric])

text \<open>
  C4. For the method \<open>CONNECT\<close> the handler returns an envelope with status 400. The text
  \<open>Invalid HTTP method: CONNECT\<close> is the \<open>value\<close> of the \<open>ValidationError\<close>; the message in
  the envelope is \<open>Validation failed for field method\<close>, in which the text
  \<open>Invalid HTTP method\<close> does not occur.
\<close>

theorem connect_method_envelope:
  "handler rt \<lparr>requestContext = Some \<lparr>http = \<lparr>http_method = str ''CONNECT''\<rparr>\<rparr>,
               pathParameters = params, body = b\<rparr>
     = \<lparr>statusCode = 400, headers = STANDARD_HEADERS,
        body = JSON_stringify rt
          (Obj [(str ''success'', Bool False),
                (str ''error'',
                   Obj [(str ''name'', Str (str ''ValidationError'')),
                        (str ''message'', Str (str ''Validation failed for field method''))])])\<rparr> \<and>
   \<not> stringIncludes (str ''Validation failed for field method'') (str ''Invalid HTTP method'')"
  by (simp add: no_invalid_method_text handler_def handlerTry_def
      createRequestContext_def isValidHttpMethod_def errorResponse_def
      createApiResponse_def spread_def str_append [symmetric])

section \<open>The resource id\<close>

lemma candidateLoop_first:
  assumes "i < length names"
    and "map_of params (names ! i) = Some (Some v)" and "v \<noteq> []"
    and "\<forall>j<i. \<forall>w. map_of params (names ! j) = Some (Some w) \<longrightarrow> w = []"
  shows "candidateLoop params names = Some v"
  using assms
proof (induction names arbitrary: i)
  case Nil
  then show ?case by simp
next
  case (Cons n names)
  show ?case
  proof (cases i)
    case 0
    with Cons.prems show ?thesis by simp
  next
    case (Suc i')
    from Cons.prems(4) Suc have first: "\<forall>w. map_of params n = Some (Some w) \<longrightarrow> w = []"
      by fastforce
    have "candidateLoop params names = Some v"
    proof (rule Cons.IH [of i'])
      show "\<forall>j<i'. \<forall>w. map_of params (names ! j) = Some (Some w) \<longrightarrow> w = []"
        using Cons.prems(4) Suc by fastforce
    qed (use Cons.prems Suc in simp_all)
    with first show ?thesis
      by (auto split: option.splits)
  qed
qed

text \<open>
  C8. \<open>extractResourceId\<close> tries the names \<open>id\<close>, \<open>resourceId\<close>, \<open>itemId\<close>, \<open>entityId\<close> in
  this order, before the scan of all entries, and returns the value of the first of them
  that is a non-empty string: when the \<open>i\<close>-th name has the non-empty string \<open>v\<close> and no
  earlier name has a non-empty string, the result is \<open>v\<close>. For the path parameters
  \<open>{itemId: "A", id: "B"}\<close> it returns \<open>B\<close>, where the scan of the entries alone finds \<open>A\<close>.
\<close>

theorem extractResourceId_preference:
  "idParameterNames = [str ''id'', str ''resourceId'', str ''itemId'', str ''entityId''] \<and>
   extractResourceId rt
     \<lparr>requestContext = rc,
      pathParameters = Some [(str ''itemId'', Some (str ''A'')), (str ''id'', Some (str ''B''))],
      body = b\<rparr> = Some (str ''B'') \<and>
   entryLoop sampleRuntime [(str ''itemId'', Some (str ''A'')), (str ''id'', Some (str ''B''))]
     = Some (str ''A'') \<and>
   (pathParameters ev = Some params \<and> i < length idParameterNames \<and>
    map_of params (idParameterNames ! i) = Some (Some v) \<and> v \<noteq> [] \<and>
    (\<forall>j<i. \<forall>w. map_of params (idParameterNames ! j) = Some (Some w) \<longrightarrow> w = [])
      \<longrightarrow> extractResourceId rt ev = Some v)"
proof (intro conjI impI)
  show "idParameterNames = [str ''id'', str ''resourceId'', str ''itemId'', str ''entityId'']"
    by (simp add: idParameterNames_def)
  show "extractResourceId rt
     \<lparr>requestContext = rc,
      pathParameters = Some [(str ''itemId'', Some (str ''A'')), (str ''id'', Some (str ''B''))],
      body = b\<rparr> = Some (str ''B'')"
    by (simp add: extractResourceId_def idParameterNames_def)
  show "entryLoop sampleRuntime [(str ''itemId'', Some (str ''A'')), (str ''id'', Some (str ''B''))]
     = Some (str ''A'')"
    by (simp add: sampleRuntime_def str_def)
next
  assume h: "pathParameters ev = Some params \<and> i < length idParameterNames \<and>
    map_of params (idParameterNames ! i) = Some (Some v) \<and> v \<noteq> [] \<and>
    (\<forall>j<i. \<forall>w. map_of params (idParameterNames ! j) = Some (Some w) \<longrightarrow> w = [])"
  then have "candidateLoop params idParameterNames = Some v"
    by (intro candidateLoop_first [of i]) simp_all
  with h show "extractResourceId rt ev = Some v"
    by (simp add: extractResourceId_def)
qed

theorem extractResourceId_preference_witness:
  "extractResourceId sampleRuntime
     \<lparr>requestContext = None,
      pathParameters = Some [(str ''userId'', Some (str ''U'')), (str ''entityId'', Some (str ''E'')),
                             (str ''itemId'', Some (str ''I'')), (str ''id'', Some [])],
      body = None\<rparr> = Some (str ''I'')"
proof -
  let ?params = "[(str ''userId'', Some (str ''U'')), (str ''entityId'', Some (str ''E'')),
                  (str ''itemId'', Some (str ''I'')), (str ''id'', Some [])]"
  let ?ev = "\<lparr>requestContext = None, pathParameters = Some ?params, body = None\<rparr>"
  have "pathParameters ?ev = Some ?params \<and> 2 < length idParameterNames \<and>
    map_of ?params (idParameterNames ! 2) = Some (Some (str ''I'')) \<and> str ''I'' \<noteq> [] \<and>
    (\<forall>j<2. \<forall>w. map_of ?params (idParameterNames ! j) = Some (Some w) \<longrightarrow> w = [])"
    by (simp add: idParameterNames_def less_Suc_eq numeral_2_eq_2 str_def)
  with extractResourceId_preference [of sampleRuntime None b ?ev ?params 2 "str ''I''"]
  show ?thesis by blast
qed

section \<open>The sanitizer\<close>

lemma sanitizeInput_filter_take:
  "sanitizeInput s = take MAX_INPUT_LENGTH (filter (\<lambda>c. \<not> isControl c) s)"
  by (simp add: sanitizeInput_def Let_def)

lemma sanitizeInput_length: "length (sanitizeInput s) \<le> 10000"
  by (simp add: sanitizeInput_filter_take MAX_INPUT_LENGTH_def)

lemma sanitizeInput_no_control: "c \<in> set (sanitizeInput s) \<Longrightarrow> \<not> isControl c"
  by (auto simp: sanitizeInput_filter_take dest: in_set_takeD)

lemma sanitizeInput_idem: "sanitizeInput (sanitizeInput s) = sanitizeInput s"
proof -
  have "filter (\<lambda>c. \<not> isControl c) (sanitizeInput s) = sanitizeInput s"
    by (rule filter_True) (simp add: sanitizeInput_no_control)
  then show ?thesis
    by (simp add: sanitizeInput_filter_take [of "sanitizeInput s"]) (simp add: sanitizeInput_filter_take)
qed

text \<open>
  C6. For every string \<open>s\<close> the result of \<open>sanitizeInput\<close> has at most 10000 code units, and
  none of them lies in the range 0x00 to 0x1F or in the range 0x7F to 0x9F.
\<close>

theorem sanitizeInput_bounded_and_clean:
  "length (sanitizeInput s) \<le> 10000 \<and>
   (\<forall>c \<in> set (sanitizeInput s). \<not> (0x00 \<le> c \<and> c \<le> 0x1F) \<and> \<not> (0x7F \<le> c \<and> c \<le> 0x9F))"
  using sanitizeInput_no_control [of _ s] sanitizeInput_length [of s]
  by (auto simp: isControl_def)

theorem sanitizeInput_bounded_and_clean_witness:
  "sanitizeInput [0x41, 0x00, 0x9F, 0x42, 0x7F, 0xA0] = [0x41, 0x42, 0xA0] \<and>
   length (sanitizeInput [0x41, 0x00, 0x9F, 0x42, 0x7F, 0xA0]) \<le> 10000 \<and>
   list_all (\<lambda>c. \<not> (0x00 \<le> c \<and> c \<le> 0x1F) \<and> \<not> (0x7F \<le> c \<and> c \<le> 0x9F))
     (sanitizeInput [0x41, 0x00, 0x9F, 0x42, 0x7F, 0xA0])"
proof -
  have "sanitizeInput [0x41, 0x00, 0x9F, 0x42, 0x7F, 0xA0] = [0x41, 0x42, 0xA0]"
    by (simp add: sanitizeInput_def isControl_def MAX_INPUT_LENGTH_def)
  then show ?thesis
    using sanitizeInput_bounded_and_clean [of "[0x41, 0x00, 0x9F, 0x42, 0x7F, 0xA0]"]
    unfolding list_all_iff by blast
qed

text \<open>
  C3. An array among the values of an accepted object does not come back as it went in:
  it takes the branch for nested objects, and the result holds in its place an object
  whose keys are the indices, with the string elements sanitized.
\<close>

theorem array_value_becomes_object:
  "validateAndSanitizeObject (Obj [(str ''items'', Arr [Num (1::int), Num 2, Num 3])])
     = Inr [(str ''items'', Obj [(str ''0'', Num 1), (str ''1'', Num 2), (str ''2'', Num 3)])] \<and>
   validateAndSanitizeObject (Obj [(str ''tags'', Arr [Str [0x41, 0x00, 0x42 :: 16 word]])])
     = (Inr [(str ''tags'', Obj [(str ''0'', Str [0x41, 0x42])])]
          :: (int, (jsstring \<times> int jsvalue) list) Result)"
  by (simp add: setProperty_def sanitizeInput_def isControl_def MAX_INPUT_LENGTH_def str_def)

declare validateAndSanitizeObject.simps [simp del]

lemma sanitizeEntries_step:
  "sanitizeEntries ((key, v) # rest) acc =
     (if length key = 0 \<or> length key > 100 then
        Inl (ValidationError (str ''key'') (Str (str ''Invalid key: '' @ key)))
      else (case sanitizeValue v of
              Inl e \<Rightarrow> Inl e
            | Inr w \<Rightarrow> sanitizeEntries rest (setProperty acc key w)))"
  by (cases v) (simp_all add: sanitizeValue_def split: sum.splits)

declare sanitizeEntries.simps(2) [simp del]

lemma jsize_entries:
  assumes "entries obj = Some es" and "(k, v) \<in> set es"
  shows "jsize v < jsize obj"
proof (cases obj)
  case (Arr xs)
  with assms have "v \<in> set xs"
    by (auto dest: set_zip_rightD)
  then have "jsize v \<le> sum_list (map jsize xs)"
    by (simp add: member_le_sum_list)
  with Arr show ?thesis by simp
next
  case (Obj ps)
  with assms have "(k, v) \<in> set ps" by simp
  then have "jsize v \<in> set (map (\<lambda>(k, v). jsize v) ps)"
    by force
  then have "jsize v \<le> sum_list (map (\<lambda>(k, v). jsize v) ps)"
    by (simp add: member_le_sum_list)
  with Obj show ?thesis by simp
qed (use assms in simp_all)

lemma update_fresh: "k \<notin> fst ` set al \<Longrightarrow> AList.update k v al = al @ [(k, v)]"
  by (induction al) auto

lemma set_update_subset: "set (AList.update k v al) \<subseteq> insert (k, v) (set al)"
  by (induction al) auto

lemma settled_setProperty:
  assumes "settled (Obj acc)" and "0 < length key" and "length key \<le> 100" and "settled w"
  shows "settled (Obj (setProperty acc key w))"
proof (cases "key = str ''__proto__''")
  case True
  with assms show ?thesis by (simp add: setProperty_def)
next
  case False
  have "list_all (\<lambda>(k, v). validKey k \<and> settled v) (AList.update key w acc)"
    unfolding list_all_iff
  proof
    fix p assume "p \<in> set (AList.update key w acc)"
    then have "p = (key, w) \<or> p \<in> set acc"
      using set_update_subset [of key w acc] by auto
    with assms False show "case p of (k, v) \<Rightarrow> validKey k \<and> settled v"
      by (auto simp: validKey_def list_all_iff)
  qed
  with assms False show ?thesis
    by (simp add: setProperty_def distinct_update)
qed

lemma settled_sanitizeValue:
  assumes "\<And>r. validateAndSanitizeObject v = Inr r \<Longrightarrow> settled (Obj r)"
    and "sanitizeValue v = Inr w"
  shows "settled w"
  by (cases v)
    (use assms in \<open>auto simp: sanitizeValue_def sanitizeInput_idem split: sum.splits\<close>)

lemma settled_sanitizeEntries:
  assumes "\<And>k v r. (k, v) \<in> set es \<Longrightarrow> validateAndSanitizeObject v = Inr r \<Longrightarrow> settled (Obj r)"
    and "settled (Obj acc)" and "sanitizeEntries es acc = Inr r"
  shows "settled (Obj r)"
  using assms
proof (induction es arbitrary: acc)
  case Nil
  then show ?case by simp
next
  case (Cons p es)
  obtain key v where p: "p = (key, v)" by (cases p)
  from Cons.prems(3) have key: "0 < length key" "length key \<le> 100"
    by (auto simp: p sanitizeEntries_step split: if_splits)
  from Cons.prems(3) key obtain w where w: "sanitizeValue v = Inr w"
    and rest: "sanitizeEntries es (setProperty acc key w) = Inr r"
    by (auto simp: p sanitizeEntries_step split: sum.splits)
  have "settled w"
  proof (rule settled_sanitizeValue [OF _ w])
    fix r' assume "validateAndSanitizeObject v = Inr r'"
    then show "settled (Obj r')"
      using Cons.prems(1) [of key v r'] by (simp add: p)
  qed
  with Cons.prems(2) key have acc': "settled (Obj (setProperty acc key w))"
    by (rule settled_setProperty)
  show ?case
  proof (rule Cons.IH [OF _ acc' rest])
    fix k' v' r'
    assume "(k', v') \<in> set es" and "validateAndSanitizeObject v' = Inr r'"
    then show "settled (Obj r')"
      using Cons.prems(1) [of k' v' r'] by simp
  qed
qed

lemma settled_validateAndSanitizeObject:
  "validateAndSanitizeObject obj = Inr r \<Longrightarrow> settled (Obj r)"
proof (induction "jsize obj" arbitrary: obj r rule: less_induct)
  case less
  from less.prems obtain es where es: "entries obj = Some es"
    and run: "sanitizeEntries es [] = Inr r"
    by (auto simp: validateAndSanitizeObject.simps split: option.splits)
  show ?case
  proof (rule settled_sanitizeEntries [OF _ _ run])
    fix k v r'
    assume "(k, v) \<in> set es" and "validateAndSanitizeObject v = Inr r'"
    with es show "settled (Obj r')"
      by (intro less.hyps [of v r']) (auto dest: jsize_entries)
  qed simp
qed

lemma sanitizeEntries_settled:
  assumes "list_all (\<lambda>(k, v). validKey k \<and> sanitizeValue v = Inr v) ps"
    and "distinct (map fst ps)" and "fst ` set ps \<inter> fst ` set acc = {}"
  shows "sanitizeEntries ps acc = Inr (acc @ ps)"
  using assms
proof (induction ps arbitrary: acc)
  case Nil
  then show ?case by simp
next
  case (Cons p ps)
  obtain key v where p: "p = (key, v)" by (cases p)
  from Cons.prems(1) have key: "validKey key" and v: "sanitizeValue v = Inr v"
    and rest: "list_all (\<lambda>(k, v). validKey k \<and> sanitizeValue v = Inr v) ps"
    by (simp_all add: p)
  from Cons.prems(3) have "key \<notin> fst ` set acc"
    by (auto simp: p)
  with key have set: "setProperty acc key v = acc @ [(key, v)]"
    by (simp add: setProperty_def validKey_def update_fresh)
  have "fst ` set ps \<inter> fst ` set (acc @ [(key, v)]) = {}"
    using Cons.prems(2,3) by (auto simp: p)
  with Cons.IH [OF rest, of "acc @ [(key, v)]"] Cons.prems(2)
  have "sanitizeEntries ps (acc @ [(key, v)]) = Inr (acc @ (key, v) # ps)"
    by simp
  with key v set show ?case
    by (simp add: p sanitizeEntries_step validKey_def)
qed

lemma sanitizeValue_settled: "settled v \<Longrightarrow> sanitizeValue v = Inr v"
proof (induction "jsize v" arbitrary: v rule: less_induct)
  case less
  show ?case
  proof (cases v)
    case (Obj ps)
    have "list_all (\<lambda>(k, w). validKey k \<and> sanitizeValue w = Inr w) ps"
      unfolding list_all_iff
    proof
      fix p assume mem: "p \<in> set ps"
      obtain k w where p: "p = (k, w)" by (cases p)
      from mem less.prems have "validKey k" "settled w"
        by (auto simp: Obj p list_all_iff)
      moreover have "jsize w < jsize v"
        using mem jsize_entries [of v ps k w] by (simp add: Obj p)
      ultimately show "case p of (k, w) \<Rightarrow> validKey k \<and> sanitizeValue w = Inr w"
        using less.hyps [of w] by (simp add: p)
    qed
    moreover from less.prems have "distinct (map fst ps)"
      by (simp add: Obj)
    ultimately have "sanitizeEntries ps [] = Inr ([] @ ps)"
      by (intro sanitizeEntries_settled) simp_all
    then show ?thesis
      by (simp add: Obj sanitizeValue_def validateAndSanitizeObject.simps)
  qed (use less.prems in \<open>simp_all add: sanitizeValue_def\<close>)
qed

text \<open>
  C5. Sanitization is idempotent: when \<open>validateAndSanitizeObject\<close> succeeds on \<open>x\<close> with
  the value \<open>v\<close>, it succeeds on \<open>v\<close> with the value \<open>v\<close>. In particular \<open>sanitizeInput\<close> leaves
  its own output unchanged, an output that has at most 10000 code units.
\<close>

theorem sanitization_idempotent:
  "(validateAndSanitizeObject x = Inr v \<longrightarrow> validateAndSanitizeObject (Obj v) = Inr v) \<and>
   sanitizeInput (sanitizeInput s) = sanitizeInput s \<and>
   length (sanitizeInput s) \<le> 10000"
proof (intro conjI impI)
  assume "validateAndSanitizeObject x = Inr v"
  then have "settled (Obj v)"
    by (rule settled_validateAndSanitizeObject)
  then have "sanitizeValue (Obj v) = Inr (Obj v)"
    by (rule sanitizeValue_settled)
  then show "validateAndSanitizeObject (Obj v) = Inr v"
    by (simp add: sanitizeValue_def split: sum.splits)
qed (simp_all add: sanitizeInput_idem sanitizeInput_length)

theorem sanitization_idempotent_witness:
  "validateAndSanitizeObject
     (Obj [(str ''name'', Str [0x41, 0x00, 0x42]),
           (str ''user'', Obj [(str ''bio'', Str [0x43, 0x1F])]),
           (str ''count'', Num (7::int))])
     = Inr [(str ''name'', Str [0x41, 0x42]),
            (str ''user'', Obj [(str ''bio'', Str [0x43])]),
            (str ''count'', Num 7)] \<and>
   validateAndSanitizeObject
     (Obj [(str ''name'', Str [0x41, 0x42]),
           (str ''user'', Obj [(str ''bio'', Str [0x43])]),
           (str ''count'', Num (7::int))])
     = Inr [(str ''name'', Str [0x41, 0x42]),
            (str ''user'', Obj [(str ''bio'', Str [0x43])]),
            (str ''count'', Num 7)]"
proof -
  let ?x = "Obj [(str ''name'', Str [0x41, 0x00, 0x42]),
                 (str ''user'', Obj [(str ''bio'', Str [0x43, 0x1F])]),
                 (str ''count'', Num (7::int))]"
  let ?v = "[(str ''name'', Str [0x41, 0x42]),
             (str ''user'', Obj [(str ''bio'', Str [0x43])]),
             (str ''count'', Num (7::int))]"
  have run: "validateAndSanitizeObject ?x = Inr ?v"
    by (simp add: validateAndSanitizeObject.simps sanitizeEntries.simps setProperty_def
        sanitizeInput_def isControl_def MAX_INPUT_LENGTH_def)
  with sanitization_idempotent [of ?x ?v] show ?thesis
    by simp
qed

section \<open>The handler\<close>

lemma spread_empty [simp]: "spread a [] = a"
  by (simp add: spread_def)

lemma headers_errorResponse [simp]: "headers (errorResponse rt e s) = STANDARD_HEADERS"
  by (simp add: errorResponse_def createApiResponse_def Let_def)

lemma headers_successResponse [simp]: "headers (successResponse rt d s) = STANDARD_HEADERS"
  by (simp add: successResponse_def createApiResponse_def)

lemma headers_handlerCatch: "headers (handlerCatch rt e) = STANDARD_HEADERS"
  by (cases e) (simp_all add: handlerCatch_def)

lemma headers_handlerTry: "handlerTry rt ev = Inr r \<Longrightarrow> headers r = STANDARD_HEADERS"
  by (auto simp: handlerTry_def Let_def split: sum.splits if_splits)

lemma headers_handler: "headers (handler rt ev) = STANDARD_HEADERS"
  by (auto simp: handler_def headers_handlerCatch headers_handlerTry split: sum.splits)

text \<open>
  C7. Every envelope the handler returns, from the \<open>try\<close> block or from the \<open>catch\<close> block
  (whatever was thrown), has as its headers the seven standard headers, with the values
  \<open>application/json\<close>, \<open>nosniff\<close>, \<open>DENY\<close>, \<open>1; mode=block\<close>,
  \<open>max-age=31536000; includeSubDomains\<close>, \<open>no-store, no-cache, must-revalidate\<close> and
  \<open>no-cache\<close>.
\<close>

theorem security_headers_on_every_path:
  "headers (handler rt ev) = STANDARD_HEADERS \<and>
   headers (handlerCatch rt thrown) = STANDARD_HEADERS \<and>
   map_of STANDARD_HEADERS (str ''Content-Type'') = Some (str ''application/json'') \<and>
   map_of STANDARD_HEADERS (str ''X-Content-Type-Options'') = Some (str ''nosniff'') \<and>
   map_of STANDARD_HEADERS (str ''X-Frame-Options'') = Some (str ''DENY'') \<and>
   map_of STANDARD_HEADERS (str ''X-XSS-Protection'') = Some (str ''1; mode=block'') \<and>
   map_of STANDARD_HEADERS (str ''Strict-Transport-Security'')
     = Some (str ''max-age=31536000; includeSubDomains'') \<and>
   map_of STANDARD_HEADERS (str ''Cache-Control'')
     = Some (str ''no-store, no-cache, must-revalidate'') \<and>
   map_of STANDARD_HEADERS (str ''Pragma'') = Some (str ''no-cache'')"
  by (simp add: headers_handler headers_handlerCatch STANDARD_HEADERS_def)

lemma truthy_simps [simp]: "\<not> truthy None" "\<not> truthy (Some [])"
  by (simp_all add: truthy_def)

lemma entryLoop_toLowerCase:
  "toLowerCase rt' = toLowerCase rt \<Longrightarrow> entryLoop rt' params = entryLoop rt params"
  by (induction params) auto

lemma extractResourceId_cong:
  assumes "toLowerCase rt' = toLowerCase rt" and "pathParameters ev' = pathParameters ev"
  shows "extractResourceId rt' ev' = extractResourceId rt ev"
  using assms entryLoop_toLowerCase [OF assms(1)]
  by (simp add: extractResourceId_def split: option.splits)

lemma handlerTry_without_body:
  assumes "\<not> truthy (body ev)"
  shows "handlerTry rt ev =
     (case createRequestContext rt ev of
        Inl thrown \<Rightarrow> Inl thrown
      | Inr (Inl e) \<Rightarrow> Inr (errorResponse rt (Inl e) 400)
      | Inr (Inr ctx) \<Rightarrow>
          Inr (successResponse rt
                 (Obj [(str ''message'',
                          Str (operationName (operation ctx) @ str '' operation logged successfully'')),
                       (str ''operation'', Str (operationName (operation ctx))),
                       (str ''resourceId'',
                          (case resourceId ctx of None \<Rightarrow> Undefined | Some r \<Rightarrow> Str r)),
                       (str ''timestamp'', Str (now rt))])
                 200))"
  using assms by (simp add: handlerTry_def split: sum.splits)

lemma createRequestContext_body:
  "createRequestContext rt (ev\<lparr>body := b\<rparr>) =
     map_sum id (map_sum id (\<lambda>ctx. ctx\<lparr>event := ev\<lparr>body := b\<rparr>\<rparr>)) (createRequestContext rt ev)"
  by (simp add: createRequestContext_def Let_def
      extractResourceId_cong [of rt rt "ev\<lparr>body := b\<rparr>" ev]
      split: option.splits sum.splits)

lemma createRequestContext_JSON_parse:
  "createRequestContext (rt\<lparr>JSON_parse := p\<rparr>) ev = createRequestContext rt ev"
  by (simp add: createRequestContext_def Let_def
      extractResourceId_cong [of "rt\<lparr>JSON_parse := p\<rparr>" rt ev ev]
      split: option.splits sum.splits)

lemma errorResponse_JSON_parse [simp]:
  "errorResponse (rt\<lparr>JSON_parse := p\<rparr>) e s = errorResponse rt e s"
  by (simp add: errorResponse_def createApiResponse_def)

lemma successResponse_JSON_parse [simp]:
  "successResponse (rt\<lparr>JSON_parse := p\<rparr>) d s = successResponse rt d s"
  by (simp add: successResponse_def createApiResponse_def)

lemma handlerCatch_JSON_parse [simp]:
  "handlerCatch (rt\<lparr>JSON_parse := p\<rparr>) e = handlerCatch rt e"
  by (cases e) (simp_all add: handlerCatch_def)

lemma handler_empty_body:
  "handler (rt\<lparr>JSON_parse := p\<rparr>) (ev\<lparr>body := Some []\<rparr>) = handler rt (ev\<lparr>body := None\<rparr>)"
proof (cases "createRequestContext rt ev")
  case (Inl thrown)
  then show ?thesis
    by (simp add: handler_def handlerTry_without_body createRequestContext_body
        createRequestContext_JSON_parse)
next
  case (Inr res)
  then show ?thesis
    by (cases res)
      (simp_all add: handler_def handlerTry_without_body createRequestContext_body
        createRequestContext_JSON_parse)
qed

text \<open>
  C10. An event whose body is the empty string is handled as one without a body: the
  envelope is the one of the same event with the body absent, whatever \<open>JSON.parse\<close> would
  do, so that neither the parser nor the sanitizer contributes to it; and
  \<open>parseRequestBody\<close> of an absent or empty body is the success with the empty object.
\<close>

theorem empty_body_like_absent_body:
  "handler rt (ev\<lparr>body := Some []\<rparr>) = handler rt (ev\<lparr>body := None\<rparr>) \<and>
   handler (rt\<lparr>JSON_parse := p\<rparr>) (ev\<lparr>body := Some []\<rparr>) = handler rt (ev\<lparr>body := None\<rparr>) \<and>
   parseRequestBody rt None = Inr (Obj []) \<and>
   parseRequestBody rt (Some []) = Inr (Obj [])"
  using handler_empty_body [where rt = rt and p = "JSON_parse rt" and ev = ev]
    handler_empty_body [where rt = rt and p = p and ev = ev]
  by (simp add: parseRequestBody_def)

section \<open>The message of a validation error\<close>

lemma sanitizeValue_Inl:
  "sanitizeValue v = Inl e \<Longrightarrow> validateAndSanitizeObject v = Inl e"
  by (cases v) (auto simp: sanitizeValue_def split: sum.splits)

lemma sanitizeEntries_error:
  assumes "\<And>k v e. (k, v) \<in> set es \<Longrightarrow> validateAndSanitizeObject v = Inl e
              \<Longrightarrow> \<exists>f w. e = ValidationError f w"
    and "sanitizeEntries es acc = Inl e"
  shows "\<exists>f w. e = ValidationError f w"
  using assms
proof (induction es arbitrary: acc)
  case Nil
  then show ?case by simp
next
  case (Cons p es)
  obtain key v where p: "p = (key, v)" by (cases p)
  show ?case
  proof (cases "length key = 0 \<or> length key > 100")
    case True
    with Cons.prems(2) show ?thesis
      by (auto simp: p sanitizeEntries_step)
  next
    case False
    show ?thesis
    proof (cases "sanitizeValue v")
      case (Inl e')
      with False Cons.prems(2) have "validateAndSanitizeObject v = Inl e"
        by (auto simp: p sanitizeEntries_step dest: sanitizeValue_Inl)
      then show ?thesis
        using Cons.prems(1) [of key v e] by (simp add: p)
    next
      case (Inr w)
      with False Cons.prems(2) have rest: "sanitizeEntries es (setProperty acc key w) = Inl e"
        by (simp add: p sanitizeEntries_step)
      show ?thesis
      proof (rule Cons.IH [OF _ rest])
        fix k' v' e'
        assume "(k', v') \<in> set es" and "validateAndSanitizeObject v' = Inl e'"
        then show "\<exists>f w. e' = ValidationError f w"
          using Cons.prems(1) [of k' v' e'] by simp
      qed
    qed
  qed
qed

lemma validateAndSanitizeObject_error:
  "validateAndSanitizeObject obj = Inl e \<Longrightarrow> \<exists>f w. e = ValidationError f w"
proof (induction "jsize obj" arbitrary: obj e rule: less_induct)
  case less
  show ?case
  proof (cases "entries obj")
    case None
    with less.prems show ?thesis
      by (auto simp: validateAndSanitizeObject.simps)
  next
    case (Some es)
    with less.prems have run: "sanitizeEntries es [] = Inl e"
      by (simp add: validateAndSanitizeObject.simps)
    show ?thesis
    proof (rule sanitizeEntries_error [OF _ run])
      fix k v e'
      assume "(k, v) \<in> set es" and "validateAndSanitizeObject v = Inl e'"
      with Some show "\<exists>f w. e' = ValidationError f w"
        by (intro less.hyps [of v e']) (auto dest: jsize_entries)
    qed
  qed
qed

lemma parseRequestBody_error:
  "parseRequestBody rt b = Inl e \<Longrightarrow> \<exists>f w. e = ValidationError f w"
  by (auto simp: parseRequestBody_def split: if_splits sum.splits)

lemma mapHttpMethodToCrudOperation_error:
  "isValidHttpMethod m \<Longrightarrow> mapHttpMethodToCrudOperation m h = Inl e
     \<Longrightarrow> \<exists>f w. e = ValidationError f w"
  by (auto simp: isValidHttpMethod_def mapHttpMethodToCrudOperation_def split: if_splits)

lemma createRequestContext_error:
  "createRequestContext rt ev = Inr (Inl e) \<Longrightarrow> \<exists>f w. e = ValidationError f w"
  by (auto simp: createRequestContext_def Let_def
      split: option.splits if_splits sum.splits dest: mapHttpMethodToCrudOperation_error)

text \<open>
  C9. The message of the \<open>ValidationError\<close> built from a field \<open>f\<close> and a value \<open>v\<close> is
  \<open>Validation failed for field\<close> followed by \<open>f\<close>: \<open>v\<close> is kept as the property \<open>value\<close> and
  the message is the same for every \<open>v\<close>. Every error that a stage of the pipeline returns
  (the classifier on an accepted method, the construction of the request context, the
  parsing of the body, the sanitizer) is a \<open>ValidationError\<close> with such a message.
\<close>

theorem validationError_message_omits_value:
  "message (ValidationError f v) = str ''Validation failed for field '' @ f \<and>
   field (ValidationError f v) = f \<and> value_of (ValidationError f v) = v \<and>
   message (ValidationError f v) = message (ValidationError f v') \<and>
   (isValidHttpMethod m \<and> mapHttpMethodToCrudOperation m h = Inl e \<or>
    createRequestContext rt ev = Inr (Inl e) \<or>
    parseRequestBody rt b = Inl e \<or>
    validateAndSanitizeObject x = Inl e
      \<longrightarrow> e = ValidationError (field e) (value_of e) \<and>
          message e = str ''Validation failed for field '' @ field e)"
proof -
  have "e = ValidationError (field e) (value_of e) \<and>
        message e = str ''Validation failed for field '' @ field e"
    if "\<exists>f w. e = ValidationError f w"
    using that by auto
  then show ?thesis
    using mapHttpMethodToCrudOperation_error [of m h e] createRequestContext_error [of rt ev e]
      parseRequestBody_error [of rt b e] validateAndSanitizeObject_error [of x e]
    by auto
qed

theorem validationError_message_omits_value_witness:
  "mapHttpMethodToCrudOperation (str ''DELETE'') False =
     Inl (ValidationError (str ''resourceId'')
            (Str (str ''Resource ID required for delete operations'')) :: int error) \<and>
   createRequestContext sampleRuntime
     \<lparr>requestContext = Some \<lparr>http = \<lparr>http_method = str ''CONNECT''\<rparr>\<rparr>,
      pathParameters = None, body = None\<rparr> =
     Inr (Inl (ValidationError (str ''method'') (Str (str ''Invalid HTTP method: CONNECT'')))) \<and>
   parseRequestBody sampleRuntime (Some (str ''{ invalid json }'')) =
     Inl (ValidationError (str ''body'') (Str (str ''Invalid JSON: Unexpected token''))) \<and>
   validateAndSanitizeObject (Str (str ''not an object'')) =
     Inl (ValidationError (str ''object'') (Str (str ''Expected an object'')) :: int error) \<and>
   message (ValidationError (str ''resourceId'')
              (Str (str ''Resource ID required for delete operations'')) :: int error)
     = str ''Validation failed for field resourceId'' \<and>
   message (ValidationError (str ''method'') (Str (str ''Invalid HTTP method: CONNECT'')) :: int error)
     = str ''Validation failed for field method'' \<and>
   message (ValidationError (str ''body'') (Str (str ''Invalid JSON: Unexpected token'')) :: int error)
     = str ''Validation failed for field body'' \<and>
   message (ValidationError (str ''object'') (Str (str ''Expected an object'')) :: int error)
     = str ''Validation failed for field object''"
proof -
  let ?e1 = "ValidationError (str ''resourceId'')
               (Str (str ''Resource ID required for delete operations'')) :: int error"
  let ?ev = "\<lparr>requestContext = Some \<lparr>http = \<lparr>http_method = str ''CONNECT''\<rparr>\<rparr>,
              pathParameters = None, body = None\<rparr>"
  let ?e2 = "ValidationError (str ''method'') (Str (str ''Invalid HTTP method: CONNECT'')) :: int error"
  let ?e3 = "ValidationError (str ''body'') (Str (str ''Invalid JSON: Unexpected token'')) :: int error"
  let ?e4 = "ValidationError (str ''object'') (Str (str ''Expected an object'')) :: int error"
  have h1: "isValidHttpMethod (str ''DELETE'') \<and>
            mapHttpMethodToCrudOperation (str ''DELETE'') False = Inl ?e1"
    by (simp add: isValidHttpMethod_def mapHttpMethodToCrudOperation_def)
  have h2: "createRequestContext sampleRuntime ?ev = Inr (Inl ?e2)"
    by (simp add: createRequestContext_def isValidHttpMethod_def str_append [symmetric])
  have h3: "parseRequestBody sampleRuntime (Some (str ''{ invalid json }'')) = Inl ?e3"
    by (simp add: parseRequestBody_def truthy_def sampleRuntime_def str_append [symmetric])
  have h4: "validateAndSanitizeObject (Str (str ''not an object'')) = Inl ?e4"
    by (simp add: validateAndSanitizeObject.simps)
  have m1: "message ?e1 = str ''Validation failed for field '' @ field ?e1"
    using validationError_message_omits_value
      [where m = "str ''DELETE''" and h = False and e = ?e1] h1 by blast
  have m2: "message ?e2 = str ''Validation failed for field '' @ field ?e2"
    using validationError_message_omits_value
      [where rt = sampleRuntime and ev = ?ev and e = ?e2] h2 by blast
  have m3: "message ?e3 = str ''Validation failed for field '' @ field ?e3"
    using validationError_message_omits_value
      [where rt = sampleRuntime and b = "Some (str ''{ invalid json }'')" and e = ?e3] h3 by blast
  have m4: "message ?e4 = str ''Validation failed for field '' @ field ?e4"
    using validationError_message_omits_value
      [where x = "Str (str ''not an object'')" and e = ?e4] h4 by blast
  have fields: "field ?e1 = str ''resourceId''" "field ?e2 = str ''method''"
    "field ?e3 = str ''body''" "field ?e4 = str ''object''"
    by simp_all
  have "message ?e1 = str ''Validation failed for field resourceId''"
    unfolding m1 fields by (simp add: str_append [symmetric])
  moreover have "message ?e2 = str ''Validation failed for field method''"
    unfolding m2 fields by (simp add: str_append [symmetric])
  moreover have "message ?e3 = str ''Validation failed for field body''"
    unfolding m3 fields by (simp add: str_append [symmetric])
  moreover have "message ?e4 = str ''Validation failed for field object''"
    unfolding m4 fields by (simp add: str_append [symmetric])
  ultimately show ?thesis
    using h1 h2 h3 h4 by blast
qed


end
